theory Spec2Isabelle
  imports Main "HOL-Library.Sublist"
begin

section \<open>Daily job search automation: the script as HOL functions\<close>

text \<open>
  The script \<^verbatim>\<open>daily_job_search_automation.py\<close> searches the Google Custom Search API,
  formats the hits as an HTML digest and mails it. Its functions are embedded one by one.
  Python text is a \<^typ>\<open>string\<close> holding the UTF-8 encoding of the text; the network, the
  mail server and the clock are parameters, and every call the script makes to them is
  written to a trace that the function returns with its result.
\<close>

subsection \<open>Python string operations used by the script\<close>

text \<open>\<^verbatim>\<open>s.replace(old, new)\<close> for a one-character \<^verbatim>\<open>old\<close>.\<close>

definition replace_char :: "char \<Rightarrow> string \<Rightarrow> string \<Rightarrow> string" where
  "replace_char old new s = concat (map (\<lambda>c. if c = old then new else [c]) s)"

text \<open>
  \<^verbatim>\<open>html.escape(s)\<close> of the standard library, with its default \<^verbatim>\<open>quote=True\<close>: five
  replacements in this order, the ampersand first.
\<close>

definition escape :: "string \<Rightarrow> string" where
  "escape s =
     replace_char (CHR 0x27) ''&#x27;''
       (replace_char (CHR 0x22) ''&quot;''
         (replace_char CHR ''>'' ''&gt;''
           (replace_char CHR ''<'' ''&lt;''
             (replace_char CHR ''&'' ''&amp;'' s))))"

text \<open>
  The characters \<^verbatim>\<open>str.isspace\<close> accepts, each as its UTF-8 encoding: U+0009 to U+000D,
  U+001C to U+0020, U+0085, U+00A0, U+1680, U+2000 to U+200A, U+2028, U+2029, U+202F,
  U+205F and U+3000.
\<close>

definition whitespace :: "string list" where
  "whitespace =
     [[CHR 0x09], [CHR 0x0A], [CHR 0x0B], [CHR 0x0C], [CHR 0x0D],
      [CHR 0x1C], [CHR 0x1D], [CHR 0x1E], [CHR 0x1F], [CHR 0x20],
      [CHR 0xC2, CHR 0x85], [CHR 0xC2, CHR 0xA0],
      [CHR 0xE1, CHR 0x9A, CHR 0x80],
      [CHR 0xE2, CHR 0x80, CHR 0x80], [CHR 0xE2, CHR 0x80, CHR 0x81],
      [CHR 0xE2, CHR 0x80, CHR 0x82], [CHR 0xE2, CHR 0x80, CHR 0x83],
      [CHR 0xE2, CHR 0x80, CHR 0x84], [CHR 0xE2, CHR 0x80, CHR 0x85],
      [CHR 0xE2, CHR 0x80, CHR 0x86], [CHR 0xE2, CHR 0x80, CHR 0x87],
      [CHR 0xE2, CHR 0x80, CHR 0x88], [CHR 0xE2, CHR 0x80, CHR 0x89],
      [CHR 0xE2, CHR 0x80, CHR 0x8A],
      [CHR 0xE2, CHR 0x80, CHR 0xA8], [CHR 0xE2, CHR 0x80, CHR 0xA9],
      [CHR 0xE2, CHR 0x80, CHR 0xAF],
      [CHR 0xE2, CHR 0x81, CHR 0x9F],
      [CHR 0xE3, CHR 0x80, CHR 0x80]]"

text \<open>Drop every leading character whose encoding is in \<open>ws\<close>.\<close>

fun strip_leading :: "string list \<Rightarrow> string \<Rightarrow> string" where
  "strip_leading ws [] = []"
| "strip_leading ws (c # cs) =
     (case find (\<lambda>w. prefix w (c # cs)) ws of
        None \<Rightarrow> c # cs
      | Some w \<Rightarrow> strip_leading ws (drop (length w - 1) cs))"

text \<open>\<^verbatim>\<open>s.strip()\<close>: whitespace is removed at both ends.\<close>

definition strip :: "string \<Rightarrow> string" where
  "strip s = rev (strip_leading (map rev whitespace) (rev (strip_leading whitespace s)))"

text \<open>\<^verbatim>\<open>sep.join(xs)\<close>.\<close>

fun join :: "string \<Rightarrow> string list \<Rightarrow> string" where
  "join sep [] = []"
| "join sep [x] = x"
| "join sep (x # y # ys) = x @ sep @ join sep (y # ys)"

text \<open>Decimal digits: the last digit of a number, \<^verbatim>\<open>str(n)\<close> for an \<^verbatim>\<open>n\<close> that is not
  negative, and a number written with at least two digits, as \<^verbatim>\<open>%m\<close>, \<^verbatim>\<open>%d\<close>,
  \<^verbatim>\<open>%H\<close> and \<^verbatim>\<open>%M\<close> write it.\<close>

definition digit :: "nat \<Rightarrow> char" where
  "digit n = ''0123456789'' ! (n mod 10)"

fun str_nat :: "nat \<Rightarrow> string" where
  "str_nat n = (if n < 10 then [digit n] else str_nat (n div 10) @ [digit n])"

declare str_nat.simps [simp del]

definition pad2 :: "nat \<Rightarrow> string" where
  "pad2 n = (if n < 10 then CHR ''0'' # str_nat n else str_nat n)"

text \<open>\<^verbatim>\<open>v or d\<close> for a \<^verbatim>\<open>v\<close> that is a string or \<^verbatim>\<open>None\<close>: both \<^verbatim>\<open>None\<close> and the empty
  string are falsy.\<close>

definition truthy :: "string option \<Rightarrow> bool" where
  "truthy v = (case v of None \<Rightarrow> False | Some s \<Rightarrow> s \<noteq> [])"

definition or_default :: "string option \<Rightarrow> string \<Rightarrow> string" where
  "or_default v d = (case v of None \<Rightarrow> d | Some s \<Rightarrow> if s = [] then d else s)"

subsection \<open>Data\<close>

text \<open>An item of the API's JSON answer is a dictionary with text values; \<^verbatim>\<open>it.get(k)\<close> is
  the lookup. A search result is the dictionary \<^verbatim>\<open>gather_results\<close> builds, with its three
  keys always present and \<^verbatim>\<open>None\<close> for a value the item did not have.\<close>

type_synonym item = "string \<rightharpoonup> string"

record search_result =
  title :: "string option"
  link :: "string option"
  snippet :: "string option"

text \<open>The query parameters of one GET request to the search API.\<close>

record request =
  param_key :: string
  param_cx :: string
  param_q :: string
  param_num :: int
  param_start :: int

datatype error = RequestException | SMTPException | HeaderParseError

type_synonym response = "error + item list"

text \<open>The search API: what the call number \<open>n\<close> of a run (counted from 0) answers to a
  request. \<open>Inl\<close> is a transport failure, a timeout or a status that
  \<^verbatim>\<open>raise_for_status\<close> rejects; \<open>Inr\<close> carries the \<^verbatim>\<open>items\<close> of the JSON body.\<close>

type_synonym api = "nat \<Rightarrow> request \<Rightarrow> response"

text \<open>A clock reading, as \<^verbatim>\<open>datetime.now\<close> returns it.\<close>

record datetime =
  year :: nat
  month :: nat
  day :: nat
  hour :: nat
  minute :: nat
  second :: nat
  microsecond :: nat

record mime_message =
  msg_from :: string
  msg_to :: string
  msg_subject :: string
  msg_html :: string

datatype smtp_command =
  Connect string nat
| Ehlo
| StartTLS
| Login string string
| SendMail string "string list" string
| Quit

text \<open>The mail server: whether it accepts a command (a refused command raises).\<close>

type_synonym smtp_server = "smtp_command \<Rightarrow> bool"

text \<open>\<^verbatim>\<open>msg.as_string()\<close> of the standard library: the text of a message, or the
  exception raised for a header value that cannot be written, such as one that holds a
  line break followed by what reads as another header.\<close>

type_synonym serializer = "mime_message \<Rightarrow> error + string"

text \<open>The module's configuration, read from the environment when the module is loaded:
  \<^verbatim>\<open>os.getenv\<close> gives \<^verbatim>\<open>None\<close> for a variable that is not set.\<close>

record config =
  CSE_API_KEY :: "string option"
  CSE_CX :: "string option"
  EMAIL_USER :: "string option"
  EMAIL_PASS :: "string option"
  RECIPIENT_EMAIL :: "string option"
  QUERY :: string
  MAX_RESULTS :: int

text \<open>What a run does to the outside world, in order.\<close>

datatype event = Print string | HttpGet request | Smtp smtp_command

subsection \<open>Search client\<close>

text \<open>\<^verbatim>\<open>search_google_cse\<close>: one GET request. The request is returned with the answer, for the
  trace.\<close>

definition search_google_cse ::
  "api \<Rightarrow> nat \<Rightarrow> string \<Rightarrow> string \<Rightarrow> string \<Rightarrow> int \<Rightarrow> int \<Rightarrow> request \<times> response" where
  "search_google_cse api n query api_key cx num start =
     (let params = \<lparr>param_key = api_key, param_cx = cx, param_q = query,
                     param_num = min num 10, param_start = start\<rparr>
      in (params, api n params))"

definition to_result :: "item \<Rightarrow> search_result" where
  "to_result it = \<lparr>title = it ''title'', link = it ''link'', snippet = it ''snippet''\<rparr>"

text \<open>The \<^verbatim>\<open>while\<close> loop of \<^verbatim>\<open>gather_results\<close>, from a state \<open>results\<close>, \<open>start\<close> after \<open>n\<close>
  calls. It returns the calls it makes, each with its answer, and the outcome: the list
  of results, or the error a call raised.\<close>

function (domintros) gather_loop ::
  "api \<Rightarrow> string \<Rightarrow> string \<Rightarrow> string \<Rightarrow> int \<Rightarrow> nat \<Rightarrow> search_result list \<Rightarrow> int
     \<Rightarrow> (request \<times> response) list \<times> (error + search_result list)" where
  "gather_loop api query api_key cx max_total n results start =
     (if int (length results) < max_total then
        (case search_google_cse api n query api_key cx
                (min 10 (max_total - int (length results))) start of
           (req, Inl e) \<Rightarrow> ([(req, Inl e)], Inl e)
         | (req, Inr items) \<Rightarrow>
             if items = [] then ([(req, Inr items)], Inr results)
             else
               (case gather_loop api query api_key cx max_total (Suc n)
                       (results @ map to_result items) (start + int (length items)) of
                  (calls, out) \<Rightarrow> ((req, Inr items) # calls, out)))
      else ([], Inr results))"
  by pat_completeness auto
termination
  by (relation "measure (\<lambda>(api, query, api_key, cx, max_total, n, results, start).
        nat (max_total - int (length results)))") auto

declare gather_loop.simps [simp del]

definition gather_results ::
  "api \<Rightarrow> string \<Rightarrow> string \<Rightarrow> string \<Rightarrow> int
     \<Rightarrow> (request \<times> response) list \<times> (error + search_result list)" where
  "gather_results api query api_key cx max_total =
     gather_loop api query api_key cx max_total 0 [] 1"

text \<open>Vocabulary for the trace: the items of an answer (none when the call raised), the
  results a list of calls has delivered, and the request the loop sends when \<open>got\<close>
  results are in hand.\<close>

definition items_of :: "response \<Rightarrow> item list" where
  "items_of resp = (case resp of Inl e \<Rightarrow> [] | Inr items \<Rightarrow> items)"

definition collected :: "(request \<times> response) list \<Rightarrow> search_result list" where
  "collected calls = concat (map (\<lambda>c. map to_result (items_of (snd c))) calls)"

definition request_at :: "string \<Rightarrow> string \<Rightarrow> string \<Rightarrow> int \<Rightarrow> int \<Rightarrow> int \<Rightarrow> request" where
  "request_at query api_key cx max_total got start =
     \<lparr>param_key = api_key, param_cx = cx, param_q = query,
      param_num = min 10 (max_total - got), param_start = start\<rparr>"

subsection \<open>Digest formatter\<close>

text \<open>\<^verbatim>\<open>now.strftime('%Y-%m-%d %H:%M %Z')\<close> for a reading in the zone
  \<^verbatim>\<open>timezone(timedelta(hours=5, minutes=30))\<close>, whose name is \<^verbatim>\<open>UTC+05:30\<close>, and
  \<^verbatim>\<open>strftime('%Y-%m-%d')\<close>. The year is written with the digits it has, without
  padding.\<close>

definition strftime_date :: "datetime \<Rightarrow> string" where
  "strftime_date t = str_nat (year t) @ ''-'' @ pad2 (month t) @ ''-'' @ pad2 (day t)"

definition strftime_ist :: "datetime \<Rightarrow> string" where
  "strftime_ist t =
     strftime_date t @ '' '' @ pad2 (hour t) @ '':'' @ pad2 (minute t) @ '' UTC+05:30''"

text \<open>The list item of one result.\<close>

definition format_item :: "search_result \<Rightarrow> string" where
  \<open>format_item r =
     ''<li><a href="'' @ escape (or_default (link r) '''') @ ''">''
       @ escape (or_default (title r) ''No title'')
       @ ''</a><br/><small>'' @ escape (strip (or_default (snippet r) ''''))
       @ ''</small></li>''\<close>

text \<open>\<^verbatim>\<open>format_email_html\<close>; \<open>now\<close> is the reading \<^verbatim>\<open>datetime.now\<close> returns.\<close>

definition format_email_html :: "datetime \<Rightarrow> search_result list \<Rightarrow> string \<Rightarrow> string" where
  "format_email_html now results query =
     join [CHR 0x0A]
       ([''<h2>Job search results: '' @ escape query @ ''</h2>'',
         ''<p>Search run at '' @ strftime_ist now @ '' (IST)</p>'']
        @ (if results = [] then [''<p>No results found.</p>'']
           else [''<ol>''] @ map format_item results @ [''</ol>''])
        @ [''<hr/><p>Automation generated - tweak the queries or sources in the script as needed.</p>''])"

text \<open>Vocabulary for the digest. The escaped form of a text, character by character: each
  of the five special characters is written as its character reference and every other
  character as itself. And the check that every ampersand of a text starts one of these
  five references.\<close>

definition char_ref :: "char \<Rightarrow> string" where
  "char_ref c =
     (if c = CHR ''&'' then ''&amp;'' else if c = CHR ''<'' then ''&lt;''
      else if c = CHR ''>'' then ''&gt;'' else if c = CHR 0x22 then ''&quot;''
      else if c = CHR 0x27 then ''&#x27;'' else [c])"

definition escaped_form :: "string \<Rightarrow> string" where
  "escaped_form s = concat (map char_ref s)"

fun entities_ok :: "string \<Rightarrow> bool" where
  "entities_ok [] = True"
| "entities_ok (c # cs) =
     ((if c = CHR ''&''
       then list_ex (\<lambda>e. prefix e cs) [''amp;'', ''lt;'', ''gt;'', ''quot;'', ''#x27;'']
       else True) \<and> entities_ok cs)"

subsection \<open>Mail sender\<close>

text \<open>Commands are sent in order; the first one the server refuses raises and ends the
  session.\<close>

fun run_session :: "smtp_server \<Rightarrow> smtp_command list \<Rightarrow> smtp_command list \<times> (error + unit)" where
  "run_session smtp [] = ([], Inr ())"
| "run_session smtp (c # cs) =
     (if smtp c then (case run_session smtp cs of (sent, out) \<Rightarrow> (c # sent, out))
      else ([c], Inl SMTPException))"

text \<open>\<^verbatim>\<open>send_email_smtp\<close>. The message is built first; \<^verbatim>\<open>msg.as_string()\<close> is evaluated
  after the login, as the argument of \<^verbatim>\<open>sendmail\<close>, and when it raises nothing is
  submitted and the session is not closed.\<close>

definition send_email_smtp ::
  "smtp_server \<Rightarrow> serializer \<Rightarrow> string \<Rightarrow> string \<Rightarrow> string \<Rightarrow> string \<Rightarrow> string \<Rightarrow> string \<Rightarrow> nat
     \<Rightarrow> smtp_command list \<times> (error + unit)" where
  "send_email_smtp smtp as_string sender password recipient subject html_body smtp_host
       smtp_port =
     (let msg = \<lparr>msg_from = sender, msg_to = recipient, msg_subject = subject,
                  msg_html = html_body\<rparr>
      in case run_session smtp
                [Connect smtp_host smtp_port, Ehlo, StartTLS, Login sender password] of
           (sent, Inl e) \<Rightarrow> (sent, Inl e)
         | (sent, Inr u) \<Rightarrow>
             (case as_string msg of
                Inl e \<Rightarrow> (sent, Inl e)
              | Inr text \<Rightarrow>
                  (case run_session smtp [SendMail sender [recipient] text, Quit] of
                     (sent', out) \<Rightarrow> (sent @ sent', out))))"

subsection \<open>Orchestrator\<close>

definition missing_message :: string where
  "missing_message = ''Missing one of required environment variables: CSE_API_KEY, CSE_CX, EMAIL_USER, EMAIL_PASS, RECIPIENT_EMAIL''"

text \<open>The subject line; the dash is U+2014.\<close>

definition subject_line :: "string \<Rightarrow> datetime \<Rightarrow> string" where
  "subject_line query today =
     ''Daily job digest '' @ [CHR 0xE2, CHR 0x80, CHR 0x94] @ '' '' @ query @ '' ''
       @ [CHR 0xE2, CHR 0x80, CHR 0x94] @ '' '' @ strftime_date today"

text \<open>\<^verbatim>\<open>main\<close>, with the two clock readings it takes: \<open>now\<close> in the formatter and \<open>today\<close>
  for the subject. It returns the trace of the run and \<open>Inr ()\<close> for a normal return,
  \<open>Inl\<close> for the exception that ended it.\<close>

definition main ::
  "config \<Rightarrow> api \<Rightarrow> smtp_server \<Rightarrow> serializer \<Rightarrow> datetime \<Rightarrow> datetime
     \<Rightarrow> event list \<times> (error + unit)" where
  "main cfg api smtp as_string now today =
     (if \<not> (truthy (CSE_API_KEY cfg) \<and> truthy (CSE_CX cfg) \<and> truthy (EMAIL_USER cfg)
             \<and> truthy (EMAIL_PASS cfg) \<and> truthy (RECIPIENT_EMAIL cfg))
      then ([Print missing_message], Inr ())
      else
        (case gather_results api (QUERY cfg) (the (CSE_API_KEY cfg)) (the (CSE_CX cfg))
                (MAX_RESULTS cfg) of
           (calls, Inl e) \<Rightarrow>
             (Print ''Gathering job results...'' # map (HttpGet \<circ> fst) calls, Inl e)
         | (calls, Inr results) \<Rightarrow>
             (case send_email_smtp smtp as_string (the (EMAIL_USER cfg)) (the (EMAIL_PASS cfg))
                     (the (RECIPIENT_EMAIL cfg)) (subject_line (QUERY cfg) today)
                     (format_email_html now results (QUERY cfg)) ''smtp.gmail.com'' 587 of
                (sent, out) \<Rightarrow>
                  (Print ''Gathering job results...'' # map (HttpGet \<circ> fst) calls
                     @ [Print (''Found '' @ str_nat (length results) @ '' results''),
                        Print ''Sending email...'']
                     @ map Smtp sent
                     @ (case out of Inl e \<Rightarrow> [] | Inr u \<Rightarrow> [Print ''Email sent.'']),
                   out))))"

subsection \<open>Example inputs\<close>

text \<open>Search APIs for concrete runs: one that never has an item, one that answers every
  call with two items whatever was asked for, one that delivers exactly the number asked
  for, and one that has three items in all.\<close>

definition api_none :: api where
  "api_none n req = Inr []"

definition api_two :: api where
  "api_two n req = Inr [Map.empty, Map.empty]"

definition api_exact :: api where
  "api_exact n req = Inr (replicate (nat (param_num req)) Map.empty)"

definition api_three_then_none :: api where
  "api_three_then_none n req = (if n = 0 then Inr [Map.empty, Map.empty, Map.empty] else Inr [])"

text \<open>A clock reading, a result without a title whose other texts hold markup characters,
  a complete configuration, a mail server that accepts every command, and two behaviours
  of \<^verbatim>\<open>as_string\<close>: one that writes every message and one that refuses every message.\<close>

definition now_example :: datetime where
  "now_example = \<lparr>year = 2026, month = 11, day = 3, hour = 13, minute = 0, second = 0,
     microsecond = 0\<rparr>"

definition hostile_result :: search_result where
  "hostile_result = \<lparr>title = None, link = Some ''http://x/?a=1&b=2'',
     snippet = Some '' <b>hi</b> ''\<rparr>"

definition cfg_example :: config where
  "cfg_example = \<lparr>CSE_API_KEY = Some ''key'', CSE_CX = Some ''cx'',
     EMAIL_USER = Some ''me@example.org'', EMAIL_PASS = Some ''secret'',
     RECIPIENT_EMAIL = Some ''you@example.org'',
     QUERY = ''entry level cyber security jobs startups'', MAX_RESULTS = 10\<rparr>"

definition smtp_accepts :: smtp_server where
  "smtp_accepts c = True"

definition as_string_writes :: serializer where
  "as_string_writes msg =
     Inr (''From: '' @ msg_from msg @ [CHR 0x0A] @ ''To: '' @ msg_to msg @ [CHR 0x0A]
            @ ''Subject: '' @ msg_subject msg @ [CHR 0x0A, CHR 0x0A] @ msg_html msg)"

definition as_string_refuses :: serializer where
  "as_string_refuses msg = Inl HeaderParseError"

section \<open>Properties of the search client\<close>

subsection \<open>One iteration of the loop\<close>

lemma search_google_cse_eq:
  "search_google_cse api n query api_key cx (min 10 (max_total - got)) start =
     (request_at query api_key cx max_total got start,
      api n (request_at query api_key cx max_total got start))"
  by (simp add: search_google_cse_def request_at_def Let_def)

lemma gather_loop_stop:
  "\<not> int (length results) < max_total \<Longrightarrow>
     gather_loop api query api_key cx max_total n results start = ([], Inr results)"
  by (subst gather_loop.simps) simp

lemma gather_loop_error:
  "int (length results) < max_total \<Longrightarrow>
   api n (request_at query api_key cx max_total (int (length results)) start) = Inl e \<Longrightarrow>
     gather_loop api query api_key cx max_total n results start =
       ([(request_at query api_key cx max_total (int (length results)) start, Inl e)], Inl e)"
  by (subst gather_loop.simps) (simp add: search_google_cse_eq)

lemma gather_loop_empty:
  "int (length results) < max_total \<Longrightarrow>
   api n (request_at query api_key cx max_total (int (length results)) start) = Inr [] \<Longrightarrow>
     gather_loop api query api_key cx max_total n results start =
       ([(request_at query api_key cx max_total (int (length results)) start, Inr [])],
        Inr results)"
  by (subst gather_loop.simps) (simp add: search_google_cse_eq)

lemma gather_loop_more:
  "int (length results) < max_total \<Longrightarrow>
   api n (request_at query api_key cx max_total (int (length results)) start) = Inr items \<Longrightarrow>
   items \<noteq> [] \<Longrightarrow>
     gather_loop api query api_key cx max_total n results start =
       ((request_at query api_key cx max_total (int (length results)) start, Inr items)
          # fst (gather_loop api query api_key cx max_total (Suc n)
                  (results @ map to_result items) (start + int (length items))),
        snd (gather_loop api query api_key cx max_total (Suc n)
                  (results @ map to_result items) (start + int (length items))))"
  by (subst gather_loop.simps) (simp add: search_google_cse_eq split: prod.splits)

lemma gather_loop_induct [consumes 0, case_names stop error empty more]:
  fixes api :: api
  assumes stop: "\<And>n results start. \<not> int (length results) < max_total \<Longrightarrow> P n results start"
    and error: "\<And>n results start e. int (length results) < max_total \<Longrightarrow>
        api n (request_at query api_key cx max_total (int (length results)) start) = Inl e \<Longrightarrow>
        P n results start"
    and empty: "\<And>n results start. int (length results) < max_total \<Longrightarrow>
        api n (request_at query api_key cx max_total (int (length results)) start) = Inr [] \<Longrightarrow>
        P n results start"
    and more: "\<And>n results start items. int (length results) < max_total \<Longrightarrow>
        api n (request_at query api_key cx max_total (int (length results)) start) = Inr items \<Longrightarrow>
        items \<noteq> [] \<Longrightarrow>
        P (Suc n) (results @ map to_result items) (start + int (length items)) \<Longrightarrow>
        P n results start"
  shows "P n results start"
proof (induction "nat (max_total - int (length results))" arbitrary: n results start
    rule: less_induct)
  case (less results n start)
  let ?req = "request_at query api_key cx max_total (int (length results)) start"
  show ?case
  proof (cases "int (length results) < max_total")
    case False
    then show ?thesis by (rule stop)
  next
    case True
    show ?thesis
    proof (cases "api n ?req")
      case (Inl e)
      with True show ?thesis by (rule error)
    next
      case (Inr items)
      show ?thesis
      proof (cases "items = []")
        case True
        with \<open>int (length results) < max_total\<close> Inr show ?thesis by (simp add: empty)
      next
        case False
        with True have "nat (max_total - int (length (results @ map to_result items)))
            < nat (max_total - int (length results))"
          by (cases items) auto
        then have "P (Suc n) (results @ map to_result items) (start + int (length items))"
          by (rule less)
        with True Inr False show ?thesis by (rule more)
      qed
    qed
  qed
qed


lemma items_of_simps [simp]: "items_of (Inl e) = []" "items_of (Inr items) = items"
  by (simp_all add: items_of_def)

lemma collected_simps [simp]:
  "collected [] = []"
  "collected (c # cs) = map to_result (items_of (snd c)) @ collected cs"
  by (simp_all add: collected_def)

lemma length_collected_le:
  "\<forall>c\<in>set calls. length (items_of (snd c)) \<le> k \<Longrightarrow> length (collected calls) \<le> k * length calls"
  by (induction calls) auto

lemma gather_loop_answers:
  fixes api :: api
  shows "i < length (fst (gather_loop api query api_key cx max_total n results start)) \<Longrightarrow>
    snd (fst (gather_loop api query api_key cx max_total n results start) ! i) =
      api (n + i) (fst (fst (gather_loop api query api_key cx max_total n results start) ! i))"
proof (induction n results start arbitrary: i
    rule: gather_loop_induct [where api = api and query = query and api_key = api_key
      and cx = cx and max_total = max_total])
  case (stop n results start)
  then show ?case by (simp add: gather_loop_stop)
next
  case (error n results start e)
  then show ?case by (simp add: gather_loop_error)
next
  case (empty n results start)
  then show ?case by (simp add: gather_loop_empty)
next
  case (more n results start items)
  then show ?case by (cases i) (simp_all add: gather_loop_more)
qed

lemma gather_loop_outcome:
  fixes api :: api
  shows "snd (gather_loop api query api_key cx max_total n results start) = Inr rs \<Longrightarrow>
    rs = results @ collected (fst (gather_loop api query api_key cx max_total n results start))"
proof (induction n results start
    rule: gather_loop_induct [where api = api and query = query and api_key = api_key
      and cx = cx and max_total = max_total])
  case (stop n results start)
  then show ?case by (simp add: gather_loop_stop)
next
  case (error n results start e)
  then show ?case by (simp add: gather_loop_error)
next
  case (empty n results start)
  then show ?case by (simp add: gather_loop_empty)
next
  case (more n results start items)
  then show ?case by (simp add: gather_loop_more)
qed

lemma gather_loop_request:
  fixes api :: api
  shows "i < length (fst (gather_loop api query api_key cx max_total n results start)) \<Longrightarrow>
    fst (fst (gather_loop api query api_key cx max_total n results start) ! i) =
      request_at query api_key cx max_total
        (int (length results) + int (length (collected
           (take i (fst (gather_loop api query api_key cx max_total n results start))))))
        (start + int (length (collected
           (take i (fst (gather_loop api query api_key cx max_total n results start))))))"
proof (induction n results start arbitrary: i
    rule: gather_loop_induct [where api = api and query = query and api_key = api_key
      and cx = cx and max_total = max_total])
  case (stop n results start)
  then show ?case by (simp add: gather_loop_stop)
next
  case (error n results start e)
  then show ?case by (simp add: gather_loop_error)
next
  case (empty n results start)
  then show ?case by (simp add: gather_loop_empty)
next
  case (more n results start items)
  then show ?case by (cases i) (simp_all add: gather_loop_more add.assoc)
qed

lemma gather_loop_empty_last:
  fixes api :: api
  shows "i < length (fst (gather_loop api query api_key cx max_total n results start)) \<Longrightarrow>
    snd (fst (gather_loop api query api_key cx max_total n results start) ! i) = Inr [] \<Longrightarrow>
    Suc i = length (fst (gather_loop api query api_key cx max_total n results start)) \<and>
    snd (gather_loop api query api_key cx max_total n results start) =
      Inr (results @ collected
        (take i (fst (gather_loop api query api_key cx max_total n results start))))"
proof (induction n results start arbitrary: i
    rule: gather_loop_induct [where api = api and query = query and api_key = api_key
      and cx = cx and max_total = max_total])
  case (stop n results start)
  then show ?case by (simp add: gather_loop_stop)
next
  case (error n results start e)
  then show ?case by (simp add: gather_loop_error)
next
  case (empty n results start)
  then show ?case by (simp add: gather_loop_empty)
next
  case (more n results start items)
  show ?case
  proof (cases i)
    case 0
    with more.prems more.hyps show ?thesis by (simp add: gather_loop_more)
  next
    case (Suc j)
    with more.prems more.hyps
    have "j < length (fst (gather_loop api query api_key cx max_total (Suc n)
            (results @ map to_result items) (start + int (length items))))"
      and "snd (fst (gather_loop api query api_key cx max_total (Suc n)
            (results @ map to_result items) (start + int (length items))) ! j) = Inr []"
      by (simp_all add: gather_loop_more)
    from more.IH [OF this]
    have len: "length (fst (gather_loop api query api_key cx max_total (Suc n)
            (results @ map to_result items) (start + int (length items)))) = Suc j"
      and out: "snd (gather_loop api query api_key cx max_total (Suc n)
            (results @ map to_result items) (start + int (length items))) =
          Inr ((results @ map to_result items) @ collected (take j
            (fst (gather_loop api query api_key cx max_total (Suc n)
              (results @ map to_result items) (start + int (length items))))))"
      by simp_all
    from more.hyps Suc len have "Suc i = length (fst (gather_loop api query api_key cx
        max_total n results start))"
      by (simp add: gather_loop_more)
    moreover from more.hyps Suc out have "snd (gather_loop api query api_key cx max_total n
        results start) = Inr (results @ collected (take i (fst (gather_loop api query api_key
          cx max_total n results start))))"
      by (simp add: gather_loop_more)
    ultimately show ?thesis by (rule conjI)
  qed
qed

lemma gather_loop_calls_le:
  fixes api :: api
  shows "length (fst (gather_loop api query api_key cx max_total n results start))
    \<le> nat (max_total - int (length results))"
proof (induction n results start
    rule: gather_loop_induct [where api = api and query = query and api_key = api_key
      and cx = cx and max_total = max_total])
  case (stop n results start)
  then show ?case by (simp add: gather_loop_stop)
next
  case (error n results start e)
  then show ?case by (simp add: gather_loop_error)
next
  case (empty n results start)
  then show ?case by (simp add: gather_loop_empty)
next
  case (more n results start items)
  then show ?case by (cases items) (simp_all add: gather_loop_more)
qed

lemma gather_loop_length_le:
  fixes api :: api
  shows "\<forall>c\<in>set (fst (gather_loop api query api_key cx max_total n results start)).
       int (length (items_of (snd c))) \<le> param_num (fst c) \<Longrightarrow>
    snd (gather_loop api query api_key cx max_total n results start) = Inr rs \<Longrightarrow>
    int (length rs) \<le> max (int (length results)) max_total"
proof (induction n results start
    rule: gather_loop_induct [where api = api and query = query and api_key = api_key
      and cx = cx and max_total = max_total])
  case (stop n results start)
  then show ?case by (simp add: gather_loop_stop)
next
  case (error n results start e)
  then show ?case by (simp add: gather_loop_error)
next
  case (empty n results start)
  then show ?case by (simp add: gather_loop_empty)
next
  case (more n results start items)
  then show ?case by (simp add: gather_loop_more request_at_def)
qed

lemma gather_loop_full_pages:
  fixes api :: api
  shows "\<forall>c\<in>set (fst (gather_loop api query api_key cx max_total n results start)).
       \<exists>items. snd c = Inr items \<and> int (length items) = param_num (fst c) \<Longrightarrow>
    (\<exists>rs. snd (gather_loop api query api_key cx max_total n results start) = Inr rs
       \<and> int (length rs) = max (int (length results)) max_total) \<and>
    int (length (fst (gather_loop api query api_key cx max_total n results start))) =
      (max 0 (max_total - int (length results)) + 9) div 10"
proof (induction n results start
    rule: gather_loop_induct [where api = api and query = query and api_key = api_key
      and cx = cx and max_total = max_total])
  case (stop n results start)
  then show ?case by (simp add: gather_loop_stop)
next
  case (error n results start e)
  then show ?case by (simp add: gather_loop_error)
next
  case (empty n results start)
  then show ?case by (simp add: gather_loop_empty request_at_def)
next
  case (more n results start items)
  from more.prems more.hyps have len: "int (length items) = min 10 (max_total - int (length results))"
    by (simp add: gather_loop_more request_at_def)
  from more.prems more.hyps have "\<forall>c\<in>set (fst (gather_loop api query api_key cx max_total (Suc n)
      (results @ map to_result items) (start + int (length items)))).
       \<exists>items. snd c = Inr items \<and> int (length items) = param_num (fst c)"
    by (simp add: gather_loop_more)
  from more.IH [OF this] more.hyps len show ?case
    by (auto simp add: gather_loop_more min_def max_def split: if_splits)
qed

subsection \<open>The loop as a whole\<close>

lemma gather_loop_progress:
  fixes api :: api
  shows "Suc i < length (fst (gather_loop api query api_key cx max_total n results start)) \<Longrightarrow>
    items_of (snd (fst (gather_loop api query api_key cx max_total n results start) ! i)) \<noteq> []"
proof (induction n results start arbitrary: i
    rule: gather_loop_induct [where api = api and query = query and api_key = api_key
      and cx = cx and max_total = max_total])
  case (stop n results start)
  then show ?case by (simp add: gather_loop_stop)
next
  case (error n results start e)
  then show ?case by (simp add: gather_loop_error)
next
  case (empty n results start)
  then show ?case by (simp add: gather_loop_empty)
next
  case (more n results start items)
  then show ?case by (cases i) (simp_all add: gather_loop_more)
qed

lemma gather_loop_dom_all:
  "gather_loop_dom (api, query, api_key, cx, max_total, n, results, start)"
proof (induction n results start
    rule: gather_loop_induct [where api = api and query = query and api_key = api_key
      and cx = cx and max_total = max_total])
  case (stop n results start)
  then show ?case by (auto intro: gather_loop.domintros)
next
  case (error n results start e)
  then show ?case by (auto intro: gather_loop.domintros simp: search_google_cse_eq)
next
  case (empty n results start)
  then show ?case by (auto intro: gather_loop.domintros simp: search_google_cse_eq)
next
  case (more n results start items)
  then show ?case by (auto intro: gather_loop.domintros simp: search_google_cse_eq)
qed

subsection \<open>Concrete runs\<close>

lemma run_exact_12:
  "gather_results api_exact ''q'' ''k'' ''cx'' 12 =
     ([(\<lparr>param_key = ''k'', param_cx = ''cx'', param_q = ''q'', param_num = 10,
          param_start = 1\<rparr>, Inr (replicate 10 Map.empty)),
       (\<lparr>param_key = ''k'', param_cx = ''cx'', param_q = ''q'', param_num = 2,
          param_start = 11\<rparr>, Inr (replicate 2 Map.empty))],
      Inr (replicate 12 (to_result Map.empty)))"
  by (simp add: gather_results_def gather_loop.simps search_google_cse_def api_exact_def
      flip: replicate_add)

lemma run_two_1:
  "gather_results api_two ''q'' ''k'' ''cx'' 1 =
     ([(\<lparr>param_key = ''k'', param_cx = ''cx'', param_q = ''q'', param_num = 1,
          param_start = 1\<rparr>, Inr [Map.empty, Map.empty])],
      Inr [to_result Map.empty, to_result Map.empty])"
  by (simp add: gather_results_def gather_loop.simps search_google_cse_def api_two_def)

lemma run_two_neg:
  "gather_results api_two ''q'' ''k'' ''cx'' (- 1) = ([], Inr [])"
  by (simp add: gather_results_def gather_loop.simps)

lemma run_none_10:
  "gather_results api_none ''q'' ''k'' ''cx'' 10 =
     ([(\<lparr>param_key = ''k'', param_cx = ''cx'', param_q = ''q'', param_num = 10,
          param_start = 1\<rparr>, Inr [])],
      Inr [])"
  by (simp add: gather_results_def gather_loop.simps search_google_cse_def api_none_def)

lemma run_three_10:
  "gather_results api_three_then_none ''q'' ''k'' ''cx'' 10 =
     ([(\<lparr>param_key = ''k'', param_cx = ''cx'', param_q = ''q'', param_num = 10,
          param_start = 1\<rparr>, Inr [Map.empty, Map.empty, Map.empty]),
       (\<lparr>param_key = ''k'', param_cx = ''cx'', param_q = ''q'', param_num = 7,
          param_start = 4\<rparr>, Inr [])],
      Inr [to_result Map.empty, to_result Map.empty, to_result Map.empty])"
  by (simp add: gather_results_def gather_loop.simps search_google_cse_def
      api_three_then_none_def)

subsection \<open>Claims about the search client\<close>

text \<open>
  C1 (as amended). The result list of \<^verbatim>\<open>gather_results\<close> has at most
  \<open>max 0 max_total\<close> entries whenever no answer of the run held more items than its
  request asked for in \<open>num\<close>. The loop appends every item of an answer and cuts nothing
  off, so the bound rests on the API honouring \<open>num\<close>; and a negative maximum yields the
  empty list, whose length is not below it.
\<close>

theorem gather_results_length:
  assumes "\<forall>c\<in>set (fst (gather_results api query api_key cx max_total)).
             int (length (items_of (snd c))) \<le> param_num (fst c)"
    and "snd (gather_results api query api_key cx max_total) = Inr rs"
  shows "int (length rs) \<le> max 0 max_total"
  using gather_loop_length_le [of api query api_key cx max_total 0 "[]" 1 rs] assms
  by (simp add: gather_results_def)

theorem gather_results_length_witness:
  "snd (gather_results api_exact ''q'' ''k'' ''cx'' 12) = Inr (replicate 12 (to_result Map.empty))
   \<and> list_all (\<lambda>c. int (length (items_of (snd c))) \<le> param_num (fst c))
        (fst (gather_results api_exact ''q'' ''k'' ''cx'' 12))
   \<and> int (length (replicate 12 (to_result Map.empty))) \<le> max 0 12"
proof -
  have h1: "\<forall>c\<in>set (fst (gather_results api_exact ''q'' ''k'' ''cx'' 12)).
      int (length (items_of (snd c))) \<le> param_num (fst c)"
    by (simp add: run_exact_12)
  have h2: "snd (gather_results api_exact ''q'' ''k'' ''cx'' 12) =
      Inr (replicate 12 (to_result Map.empty))"
    by (simp add: run_exact_12)
  from gather_results_length [OF h1 h2] h1 h2 show ?thesis
    by (simp add: list_all_iff)
qed

text \<open>The claim as first stated fails twice: an API that answers the request for one item
  with two makes the list longer than the maximum 1, and for the maximum \<open>-1\<close> the empty
  result is longer than the maximum.\<close>

theorem gather_results_length_counterexample:
  "snd (gather_results api_two ''q'' ''k'' ''cx'' 1) =
     Inr [to_result Map.empty, to_result Map.empty]
   \<and> \<not> int (length [to_result Map.empty, to_result Map.empty]) \<le> 1
   \<and> snd (gather_results api_two ''q'' ''k'' ''cx'' (- 1)) = Inr []
   \<and> \<not> int (length ([] :: search_result list)) \<le> - 1"
  by (simp add: run_two_1 run_two_neg)

text \<open>
  C4. If the API answers call number \<open>i\<close> of a run of \<^verbatim>\<open>gather_results\<close> with zero
  items, that call is the last one of the run, and the run returns the results that the
  calls before it delivered, whatever the requested maximum.
\<close>

theorem gather_results_stops_on_empty:
  assumes "i < length (fst (gather_results api query api_key cx max_total))"
    and "api i (fst (fst (gather_results api query api_key cx max_total) ! i)) = Inr []"
  shows "Suc i = length (fst (gather_results api query api_key cx max_total))
    \<and> snd (gather_results api query api_key cx max_total) =
        Inr (collected (take i (fst (gather_results api query api_key cx max_total))))"
proof -
  from assms(1) have "snd (fst (gather_results api query api_key cx max_total) ! i) =
      api i (fst (fst (gather_results api query api_key cx max_total) ! i))"
    using gather_loop_answers [of i api query api_key cx max_total 0 "[]" 1]
    by (simp add: gather_results_def)
  with assms show ?thesis
    using gather_loop_empty_last [of i api query api_key cx max_total 0 "[]" 1]
    by (simp add: gather_results_def)
qed

theorem gather_results_stops_on_empty_witness:
  "(1::nat) < length (fst (gather_results api_three_then_none ''q'' ''k'' ''cx'' 10))
   \<and> api_three_then_none 1
        (fst (fst (gather_results api_three_then_none ''q'' ''k'' ''cx'' 10) ! 1)) = Inr []
   \<and> length (fst (gather_results api_three_then_none ''q'' ''k'' ''cx'' 10)) = 2
   \<and> snd (gather_results api_three_then_none ''q'' ''k'' ''cx'' 10) =
        Inr [to_result Map.empty, to_result Map.empty, to_result Map.empty]"
proof -
  have h1: "(1::nat) < length (fst (gather_results api_three_then_none ''q'' ''k'' ''cx'' 10))"
    by (simp add: run_three_10)
  have h2: "api_three_then_none 1
      (fst (fst (gather_results api_three_then_none ''q'' ''k'' ''cx'' 10) ! 1)) = Inr []"
    by (simp add: api_three_then_none_def)
  from gather_results_stops_on_empty [OF h1 h2] h1 h2 show ?thesis
    by (simp add: run_three_10)
qed

text \<open>
  C5 (as amended). Every call of \<^verbatim>\<open>gather_results\<close> asks for
  \<open>num = min 10 (max_total - collected so far)\<close> items from the offset
  \<open>1 + collected so far\<close>. With \<open>N\<close> the number of results returned: when no answer
  holds more than 10 items the run makes at least \<open>ceil (N / 10)\<close> calls, and when every
  call is answered with exactly the number of items it asked for, \<open>N\<close> is
  \<open>max 0 max_total\<close> and the run makes exactly \<open>ceil (N / 10)\<close> calls. (For a natural
  number \<open>N\<close>, \<open>ceil (N / 10)\<close> is \<open>(N + 9) div 10\<close>.)
\<close>

theorem gather_results_calls:
  "(\<forall>i<length (fst (gather_results api query api_key cx max_total)).
      param_num (fst (fst (gather_results api query api_key cx max_total) ! i)) =
        min 10 (max_total - int (length (collected
          (take i (fst (gather_results api query api_key cx max_total))))))
      \<and> param_start (fst (fst (gather_results api query api_key cx max_total) ! i)) =
        1 + int (length (collected
          (take i (fst (gather_results api query api_key cx max_total))))))
   \<and> ((\<forall>c\<in>set (fst (gather_results api query api_key cx max_total)).
         length (items_of (snd c)) \<le> 10) \<longrightarrow>
       (\<forall>rs. snd (gather_results api query api_key cx max_total) = Inr rs \<longrightarrow>
         (length rs + 9) div 10 \<le> length (fst (gather_results api query api_key cx max_total))))
   \<and> ((\<forall>c\<in>set (fst (gather_results api query api_key cx max_total)).
         \<exists>items. snd c = Inr items \<and> int (length items) = param_num (fst c)) \<longrightarrow>
       (\<exists>rs. snd (gather_results api query api_key cx max_total) = Inr rs
         \<and> int (length rs) = max 0 max_total
         \<and> length (fst (gather_results api query api_key cx max_total)) = (length rs + 9) div 10))"
proof (intro conjI allI impI)
  fix i
  assume "i < length (fst (gather_results api query api_key cx max_total))"
  then have "fst (fst (gather_results api query api_key cx max_total) ! i) =
      request_at query api_key cx max_total
        (int (length (collected (take i (fst (gather_results api query api_key cx max_total))))))
        (1 + int (length (collected (take i (fst (gather_results api query api_key cx max_total))))))"
    using gather_loop_request [of i api query api_key cx max_total 0 "[]" 1]
    by (simp add: gather_results_def)
  then show "param_num (fst (fst (gather_results api query api_key cx max_total) ! i)) =
        min 10 (max_total - int (length (collected
          (take i (fst (gather_results api query api_key cx max_total))))))"
    and "param_start (fst (fst (gather_results api query api_key cx max_total) ! i)) =
        1 + int (length (collected
          (take i (fst (gather_results api query api_key cx max_total)))))"
    by (simp_all add: request_at_def)
next
  fix rs
  assume small: "\<forall>c\<in>set (fst (gather_results api query api_key cx max_total)).
         length (items_of (snd c)) \<le> 10"
    and out: "snd (gather_results api query api_key cx max_total) = Inr rs"
  from out have "rs = collected (fst (gather_results api query api_key cx max_total))"
    using gather_loop_outcome [of api query api_key cx max_total 0 "[]" 1 rs]
    by (simp add: gather_results_def)
  with length_collected_le [OF small]
  have "length rs \<le> 10 * length (fst (gather_results api query api_key cx max_total))"
    by simp
  then show "(length rs + 9) div 10 \<le> length (fst (gather_results api query api_key cx max_total))"
    by linarith
next
  assume "\<forall>c\<in>set (fst (gather_results api query api_key cx max_total)).
         \<exists>items. snd c = Inr items \<and> int (length items) = param_num (fst c)"
  then have "\<forall>c\<in>set (fst (gather_loop api query api_key cx max_total 0 [] 1)).
         \<exists>items. snd c = Inr items \<and> int (length items) = param_num (fst c)"
    by (simp add: gather_results_def)
  from gather_loop_full_pages [OF this]
  obtain rs where out: "snd (gather_loop api query api_key cx max_total 0 [] 1) = Inr rs"
    and len: "int (length rs) = max 0 max_total"
    and calls: "int (length (fst (gather_loop api query api_key cx max_total 0 [] 1))) =
      (max 0 max_total + 9) div 10"
    by auto
  from len calls have "length (fst (gather_loop api query api_key cx max_total 0 [] 1)) =
      (length rs + 9) div 10"
    by linarith
  with out len show "\<exists>rs. snd (gather_results api query api_key cx max_total) = Inr rs
         \<and> int (length rs) = max 0 max_total
         \<and> length (fst (gather_results api query api_key cx max_total)) = (length rs + 9) div 10"
    by (simp add: gather_results_def)
qed

theorem gather_results_calls_witness:
  "list_all (\<lambda>c. length (items_of (snd c)) \<le> 10)
     (fst (gather_results api_exact ''q'' ''k'' ''cx'' 12))
   \<and> list_all (\<lambda>c. snd c = Inr (items_of (snd c))
          \<and> int (length (items_of (snd c))) = param_num (fst c))
     (fst (gather_results api_exact ''q'' ''k'' ''cx'' 12))
   \<and> snd (gather_results api_exact ''q'' ''k'' ''cx'' 12) =
       Inr (replicate 12 (to_result Map.empty))
   \<and> length (fst (gather_results api_exact ''q'' ''k'' ''cx'' 12)) = 2
   \<and> (length (replicate 12 (to_result Map.empty)) + 9) div 10 = 2
   \<and> param_num (fst (fst (gather_results api_exact ''q'' ''k'' ''cx'' 12) ! 1)) =
       min 10 (12 - 10)"
proof -
  have h2: "\<forall>c\<in>set (fst (gather_results api_exact ''q'' ''k'' ''cx'' 12)).
      length (items_of (snd c)) \<le> 10"
    by (simp add: run_exact_12)
  have h3: "\<forall>c\<in>set (fst (gather_results api_exact ''q'' ''k'' ''cx'' 12)).
      \<exists>items. snd c = Inr items \<and> int (length items) = param_num (fst c)"
    by (simp add: run_exact_12)
  from gather_results_calls [of api_exact "''q''" "''k''" "''cx''" 12] h2 h3
  show ?thesis
    by (simp add: run_exact_12 list_all_iff)
qed

text \<open>The count \<open>ceil (N / 10)\<close> is not exact in general: an API without items is still
  called once, and the run collects \<open>N = 0\<close> results.\<close>

theorem gather_results_calls_counterexample:
  "snd (gather_results api_none ''q'' ''k'' ''cx'' 10) = Inr []
   \<and> length (fst (gather_results api_none ''q'' ''k'' ''cx'' 10)) = 1
   \<and> (1::nat) \<noteq> (length ([] :: search_result list) + 9) div 10"
  by (simp add: run_none_10)

text \<open>
  C9. \<^verbatim>\<open>gather_results\<close> terminates for every maximum and every API: the recursion of
  the loop is well-founded from every state (its domain predicate holds everywhere), the
  run makes at most \<open>max_total\<close> calls, and every call but the last one delivers at least
  one item, so that each iteration that does not leave the loop makes the list longer.
\<close>

theorem gather_results_terminates:
  "gather_loop_dom (api, query, api_key, cx, max_total, n, results, start)
   \<and> length (fst (gather_results api query api_key cx max_total)) \<le> nat max_total
   \<and> (\<forall>i. Suc i < length (fst (gather_results api query api_key cx max_total)) \<longrightarrow>
         items_of (snd (fst (gather_results api query api_key cx max_total) ! i)) \<noteq> [])"
  using gather_loop_calls_le [of api query api_key cx max_total 0 "[]" 1]
    gather_loop_progress [of _ api query api_key cx max_total 0 "[]" 1]
  by (simp add: gather_loop_dom_all gather_results_def)

theorem gather_results_terminates_witness:
  "gather_loop_dom (api_three_then_none, ''q'', ''k'', ''cx'', 10, 0, [], 1)
   \<and> length (fst (gather_results api_three_then_none ''q'' ''k'' ''cx'' 10)) = 2
   \<and> (2::nat) \<le> nat 10
   \<and> items_of (snd (fst (gather_results api_three_then_none ''q'' ''k'' ''cx'' 10) ! 0)) \<noteq> []"
  using gather_results_terminates [of api_three_then_none "''q''" "''k''" "''cx''" 10 0 "[]" 1]
  by (simp add: run_three_10)

section \<open>Properties of the digest formatter\<close>

subsection \<open>Escaping, counting and searching\<close>

lemma replace_char_simps [simp]:
  "replace_char old new [] = []"
  "replace_char old new (c # s) = (if c = old then new else [c]) @ replace_char old new s"
  "replace_char old new (s @ t) = replace_char old new s @ replace_char old new t"
  by (simp_all add: replace_char_def)

lemma escape_Nil [simp]: "escape [] = []"
  by (simp add: escape_def)

lemma escape_single:
  "escape [c] =
     (if c = CHR ''&'' then ''&amp;'' else if c = CHR ''<'' then ''&lt;''
      else if c = CHR ''>'' then ''&gt;'' else if c = CHR 0x22 then ''&quot;''
      else if c = CHR 0x27 then ''&#x27;'' else [c])"
  by (simp add: escape_def)

lemma escape_append: "escape (s @ t) = escape s @ escape t"
  by (simp add: escape_def)

lemma escape_Cons: "escape (c # s) = escape [c] @ escape s"
  by (simp add: escape_def)

lemma escape_map: "escape s = concat (map (\<lambda>c. escape [c]) s)"
proof (induction s)
  case Nil
  show ?case by simp
next
  case (Cons c s)
  then show ?case by (subst escape_Cons) simp
qed

lemma count_escape [simp]:
  "count_list (escape s) CHR ''<'' = 0" "count_list (escape s) CHR ''>'' = 0"
proof (induction s)
  case Nil
  { case 1 show ?case by simp }
  { case 2 show ?case by simp }
next
  case (Cons c s)
  { case 1 with Cons show ?case by (subst escape_Cons) (simp add: escape_single) }
  { case 2 with Cons show ?case by (subst escape_Cons) (simp add: escape_single) }
qed

lemma escape_char_ref: "escape [c] = char_ref c"
  by (simp add: escape_single char_ref_def)

lemma escape_escaped_form: "escape s = escaped_form s"
  unfolding escaped_form_def by (subst escape_map) (simp add: escape_char_ref)

lemma digit_in: "digit n \<in> set ''0123456789''"
proof -
  have "n mod 10 < length ''0123456789''" by simp
  then show ?thesis unfolding digit_def by (rule nth_mem)
qed

lemma str_nat_digits: "set (str_nat n) \<subseteq> set ''0123456789''"
proof (induction n rule: str_nat.induct)
  case (1 n)
  show ?case
  proof (cases "n < 10")
    case True
    with digit_in [of n] show ?thesis by (subst str_nat.simps) simp
  next
    case False
    with 1 digit_in [of n] show ?thesis by (subst str_nat.simps) simp
  qed
qed

lemma pad2_digits: "set (pad2 n) \<subseteq> set ''0123456789''"
  using str_nat_digits [of n] by (simp add: pad2_def)

lemma strftime_ist_chars [simp]:
  "CHR ''<'' \<notin> set (strftime_ist t)" "CHR ''>'' \<notin> set (strftime_ist t)"
  "CHR ''&'' \<notin> set (strftime_ist t)"
  using str_nat_digits [of "year t"] pad2_digits [of "month t"] pad2_digits [of "day t"]
    pad2_digits [of "hour t"] pad2_digits [of "minute t"]
  by (auto simp add: strftime_ist_def strftime_date_def)

lemma count_strftime_ist [simp]:
  "count_list (strftime_ist t) CHR ''<'' = 0" "count_list (strftime_ist t) CHR ''>'' = 0"
  by (simp_all add: count_list_0_iff)

lemma count_join:
  "count_list (join sep xs) c =
     sum_list (map (\<lambda>x. count_list x c) xs) + (length xs - 1) * count_list sep c"
  by (induction sep xs rule: join.induct) simp_all

lemma count_format_item [simp]:
  "count_list (format_item r) CHR ''<'' = 7" "count_list (format_item r) CHR ''>'' = 7"
  by (simp_all add: format_item_def)

lemma count_format_email_html:
  "count_list (format_email_html now results query) CHR ''<'' = 9 + 7 * length results"
  "count_list (format_email_html now results query) CHR ''>'' = 9 + 7 * length results"
  by (simp_all add: format_email_html_def count_join sum_list_triv comp_def)

lemma entities_ok_append: "entities_ok s \<Longrightarrow> entities_ok t \<Longrightarrow> entities_ok (s @ t)"
  by (induction s) (auto simp: list_ex_iff)

lemma entities_ok_no_amp: "CHR ''&'' \<notin> set s \<Longrightarrow> entities_ok s"
  by (induction s) auto

lemma entities_ok_escape: "entities_ok (escape s)"
proof (induction s)
  case Nil
  show ?case by simp
next
  case (Cons c s)
  have "entities_ok (escape [c])" by (simp add: escape_single)
  with Cons show ?case by (subst escape_Cons) (rule entities_ok_append)
qed

lemma entities_ok_join:
  "entities_ok sep \<Longrightarrow> \<forall>x\<in>set xs. entities_ok x \<Longrightarrow> entities_ok (join sep xs)"
  by (induction sep xs rule: join.induct) (simp_all add: entities_ok_append)

lemma entities_ok_strftime_ist: "entities_ok (strftime_ist t)"
  by (rule entities_ok_no_amp) simp

lemma entities_ok_format_item: "entities_ok (format_item r)"
  unfolding format_item_def
  by (intro entities_ok_append entities_ok_escape) simp_all

lemma entities_ok_format_email_html: "entities_ok (format_email_html now results query)"
  unfolding format_email_html_def
  by (rule entities_ok_join)
    (auto intro!: entities_ok_append entities_ok_escape entities_ok_strftime_ist
      entities_ok_format_item)

lemma lt_notin_escape [simp]: "CHR ''<'' \<notin> set (escape s)"
  using count_list_0_iff [of "escape s" "CHR ''<''"] by simp

lemma sublist_skip: "a \<notin> set xs \<Longrightarrow> sublist (a # r) (xs @ ys) = sublist (a # r) ys"
  by (induction xs) (auto simp: sublist_Cons_right)

lemma sublist_join: "x \<in> set xs \<Longrightarrow> sublist x (join sep xs)"
proof (induction sep xs rule: join.induct)
  case (1 sep)
  then show ?case by simp
next
  case (2 sep y)
  then show ?case by simp
next
  case (3 sep y z zs)
  show ?case
  proof (cases "x = y")
    case True
    then show ?thesis by simp
  next
    case False
    with 3 have "sublist x (join sep (z # zs))" by simp
    moreover have "sublist (join sep (z # zs)) ((y @ sep) @ join sep (z # zs))"
      by (rule sublist_append_leftI)
    ultimately have "sublist x ((y @ sep) @ join sep (z # zs))"
      by (rule sublist_order.order.trans)
    then show ?thesis by simp
  qed
qed

subsection \<open>Claims about the digest formatter\<close>

subsection \<open>Claims about the digest formatter\<close>

text \<open>
  C3. No \<open><\<close>, \<open>>\<close> or \<open>&\<close> of a title, link, snippet or of the query reaches the
  document of \<^verbatim>\<open>format_email_html\<close> unescaped, and each one is written in its escaped
  form: the document is its markup with, in the place of every text, the escaped form of
  that text, in which each special character stands as its character reference. So the
  document has exactly the \<open>9 + 7 * n\<close> characters \<open><\<close> and the \<open>9 + 7 * n\<close> characters
  \<open>>\<close> of its own markup for \<open>n\<close> results, whatever the texts hold, and every \<open>&\<close> in it
  starts a character reference.
\<close>

theorem format_email_html_escapes:
  \<open>format_email_html now results query =
     join [CHR 0x0A]
       ([''<h2>Job search results: '' @ escaped_form query @ ''</h2>'',
         ''<p>Search run at '' @ strftime_ist now @ '' (IST)</p>'']
        @ (if results = [] then [''<p>No results found.</p>'']
           else [''<ol>'']
             @ map (\<lambda>r. ''<li><a href="'' @ escaped_form (or_default (link r) '''') @ ''">''
                    @ escaped_form (or_default (title r) ''No title'')
                    @ ''</a><br/><small>''
                    @ escaped_form (strip (or_default (snippet r) ''''))
                    @ ''</small></li>'') results
             @ [''</ol>''])
        @ [''<hr/><p>Automation generated - tweak the queries or sources in the script as needed.</p>''])
   \<and> count_list (format_email_html now results query) CHR ''<'' = 9 + 7 * length results
   \<and> count_list (format_email_html now results query) CHR ''>'' = 9 + 7 * length results
   \<and> entities_ok (format_email_html now results query)\<close>
proof (intro conjI)
  have \<open>format_item = (\<lambda>r. ''<li><a href="'' @ escaped_form (or_default (link r) '''') @ ''">''
                    @ escaped_form (or_default (title r) ''No title'')
                    @ ''</a><br/><small>''
                    @ escaped_form (strip (or_default (snippet r) ''''))
                    @ ''</small></li>'')\<close>
    by (rule ext) (simp add: format_item_def escape_escaped_form)
  then show \<open>format_email_html now results query =
     join [CHR 0x0A]
       ([''<h2>Job search results: '' @ escaped_form query @ ''</h2>'',
         ''<p>Search run at '' @ strftime_ist now @ '' (IST)</p>'']
        @ (if results = [] then [''<p>No results found.</p>'']
           else [''<ol>'']
             @ map (\<lambda>r. ''<li><a href="'' @ escaped_form (or_default (link r) '''') @ ''">''
                    @ escaped_form (or_default (title r) ''No title'')
                    @ ''</a><br/><small>''
                    @ escaped_form (strip (or_default (snippet r) ''''))
                    @ ''</small></li>'') results
             @ [''</ol>''])
        @ [''<hr/><p>Automation generated - tweak the queries or sources in the script as needed.</p>''])\<close>
    by (simp only: format_email_html_def escape_escaped_form)
qed (simp_all add: count_format_email_html entities_ok_format_email_html)

theorem format_email_html_escapes_witness:
  \<open>format_email_html now_example [hostile_result] ''a<b'' =
     ''<h2>Job search results: a&lt;b</h2>'' @ [CHR 0x0A]
     @ ''<p>Search run at 2026-11-03 13:00 UTC+05:30 (IST)</p>'' @ [CHR 0x0A]
     @ ''<ol>'' @ [CHR 0x0A]
     @ ''<li><a href="http://x/?a=1&amp;b=2">No title</a><br/><small>&lt;b&gt;hi&lt;/b&gt;</small></li>''
     @ [CHR 0x0A]
     @ ''</ol>'' @ [CHR 0x0A]
     @ ''<hr/><p>Automation generated - tweak the queries or sources in the script as needed.</p>''
   \<and> count_list (format_email_html now_example [hostile_result] ''a<b'') CHR ''<'' = 16
   \<and> count_list (format_email_html now_example [hostile_result] ''a<b'') CHR ''>'' = 16
   \<and> entities_ok (format_email_html now_example [hostile_result] ''a<b'')\<close>
proof -
  have t: "strftime_ist now_example = ''2026-11-03 13:00 UTC+05:30''"
    by (simp add: strftime_ist_def strftime_date_def now_example_def pad2_def str_nat.simps
        digit_def)
  have q: "escaped_form ''a<b'' = ''a&lt;b''"
    by (simp add: escaped_form_def char_ref_def)
  have l: "escaped_form (or_default (link hostile_result) '''') = ''http://x/?a=1&amp;b=2''"
    by (simp add: hostile_result_def or_default_def escaped_form_def char_ref_def)
  have n: "escaped_form (or_default (title hostile_result) ''No title'') = ''No title''"
    by (simp add: hostile_result_def or_default_def escaped_form_def char_ref_def)
  have s: "escaped_form (strip (or_default (snippet hostile_result) '''')) =
      ''&lt;b&gt;hi&lt;/b&gt;''"
    by (simp add: hostile_result_def or_default_def escaped_form_def char_ref_def strip_def
        whitespace_def)
  from format_email_html_escapes [of now_example "[hostile_result]" "''a<b''"]
  show ?thesis by (simp add: t q l n s)
qed

text \<open>
  C7. For an empty list of results the document of \<^verbatim>\<open>format_email_html\<close> contains the
  notice \<^verbatim>\<open>No results found.\<close> and neither \<^verbatim>\<open><ol>\<close> nor \<^verbatim>\<open><li>\<close>, for every
  query and clock reading.
\<close>

theorem format_email_html_empty:
  "sublist ''No results found.'' (format_email_html now [] query)
   \<and> \<not> sublist ''<ol>'' (format_email_html now [] query)
   \<and> \<not> sublist ''<li>'' (format_email_html now [] query)"
proof (intro conjI)
  have "format_email_html now [] query =
      (''<h2>Job search results: '' @ escape query @ ''</h2>'' @ [CHR 0x0A]
         @ ''<p>Search run at '' @ strftime_ist now @ '' (IST)</p>'' @ [CHR 0x0A] @ ''<p>'')
      @ ''No results found.''
      @ (''</p>'' @ [CHR 0x0A]
         @ ''<hr/><p>Automation generated - tweak the queries or sources in the script as needed.</p>'')"
    by (simp add: format_email_html_def)
  then show "sublist ''No results found.'' (format_email_html now [] query)"
    by (simp only: sublist_appendI)
next
  show "\<not> sublist ''<ol>'' (format_email_html now [] query)"
    by (simp add: format_email_html_def sublist_Cons_right sublist_skip)
next
  show "\<not> sublist ''<li>'' (format_email_html now [] query)"
    by (simp add: format_email_html_def sublist_Cons_right sublist_skip)
qed

text \<open>
  C8. Every entry of the results whose title is missing is rendered by
  \<^verbatim>\<open>format_email_html\<close> as a list item whose hyperlink has exactly the text
  \<^verbatim>\<open>No title\<close> between its opening and closing tag.
\<close>

theorem format_email_html_no_title:
  assumes "r \<in> set results" and "title r = None"
  shows \<open>sublist
    (''<li><a href="'' @ escape (or_default (link r) '''') @ ''">'' @ ''No title''
       @ ''</a><br/><small>'' @ escape (strip (or_default (snippet r) '''')) @ ''</small></li>'')
    (format_email_html now results query)\<close>
proof -
  from assms(2) have \<open>format_item r =
      ''<li><a href="'' @ escape (or_default (link r) '''') @ ''">'' @ ''No title''
       @ ''</a><br/><small>'' @ escape (strip (or_default (snippet r) '''')) @ ''</small></li>''\<close>
    by (simp add: format_item_def or_default_def escape_def)
  moreover from assms(1) have "sublist (format_item r) (format_email_html now results query)"
    unfolding format_email_html_def by (intro sublist_join) auto
  ultimately show ?thesis by simp
qed

theorem format_email_html_no_title_witness:
  \<open>hostile_result \<in> set [hostile_result] \<and> title hostile_result = None
   \<and> sublist
     ''<li><a href="http://x/?a=1&amp;b=2">No title</a><br/><small>&lt;b&gt;hi&lt;/b&gt;</small></li>''
     (format_email_html now_example [hostile_result] ''q'')\<close>
proof -
  have h1: "hostile_result \<in> set [hostile_result]" by simp
  have h2: "title hostile_result = None" by (simp add: hostile_result_def)
  have l: "escape (or_default (link hostile_result) '''') = ''http://x/?a=1&amp;b=2''"
    by (simp add: hostile_result_def or_default_def escape_def)
  have s: "escape (strip (or_default (snippet hostile_result) '''')) = ''&lt;b&gt;hi&lt;/b&gt;''"
    by (simp add: hostile_result_def or_default_def escape_def strip_def whitespace_def)
  from format_email_html_no_title [OF h1 h2, of now_example "''q''"] h1 h2
  show ?thesis by (simp add: l s)
qed

section \<open>Properties of the orchestrator\<close>

text \<open>Two complete runs, for comparison with the runs that stop at the configuration
  check. The API has no items, and the digest is mailed all the same; and when
  \<^verbatim>\<open>as_string\<close> raises, the run ends after the login with that exception.\<close>

lemma run_main_example:
  "main (cfg_example\<lparr>MAX_RESULTS := 3\<rparr>) api_none smtp_accepts as_string_writes now_example
       now_example =
     ([Print ''Gathering job results...'',
       HttpGet \<lparr>param_key = ''key'', param_cx = ''cx'',
         param_q = ''entry level cyber security jobs startups'', param_num = 3,
         param_start = 1\<rparr>,
       Print ''Found 0 results'', Print ''Sending email...'',
       Smtp (Connect ''smtp.gmail.com'' 587), Smtp Ehlo, Smtp StartTLS,
       Smtp (Login ''me@example.org'' ''secret''),
       Smtp (SendMail ''me@example.org'' [''you@example.org'']
         (''From: me@example.org'' @ [CHR 0x0A] @ ''To: you@example.org'' @ [CHR 0x0A]
            @ ''Subject: ''
            @ subject_line ''entry level cyber security jobs startups'' now_example
            @ [CHR 0x0A, CHR 0x0A]
            @ format_email_html now_example [] ''entry level cyber security jobs startups'')),
       Smtp Quit, Print ''Email sent.''],
      Inr ())"
  by (simp add: main_def cfg_example_def truthy_def gather_results_def gather_loop.simps
      search_google_cse_def api_none_def send_email_smtp_def smtp_accepts_def
      as_string_writes_def str_nat.simps digit_def)

lemma run_main_refused:
  "main (cfg_example\<lparr>MAX_RESULTS := 3\<rparr>) api_none smtp_accepts as_string_refuses now_example
       now_example =
     ([Print ''Gathering job results...'',
       HttpGet \<lparr>param_key = ''key'', param_cx = ''cx'',
         param_q = ''entry level cyber security jobs startups'', param_num = 3,
         param_start = 1\<rparr>,
       Print ''Found 0 results'', Print ''Sending email...'',
       Smtp (Connect ''smtp.gmail.com'' 587), Smtp Ehlo, Smtp StartTLS,
       Smtp (Login ''me@example.org'' ''secret'')],
      Inl HeaderParseError)"
  by (simp add: main_def cfg_example_def truthy_def gather_results_def gather_loop.simps
      search_google_cse_def api_none_def send_email_smtp_def smtp_accepts_def
      as_string_refuses_def str_nat.simps digit_def)

text \<open>
  C2. If one of the five required configuration values is absent, \<^verbatim>\<open>main\<close> prints the
  diagnostic and returns normally, and its trace holds no HTTP request and no mail
  command.
\<close>

theorem main_missing_config:
  assumes "CSE_API_KEY cfg = None \<or> CSE_CX cfg = None \<or> EMAIL_USER cfg = None
    \<or> EMAIL_PASS cfg = None \<or> RECIPIENT_EMAIL cfg = None"
  shows "main cfg api smtp as_string now today = ([Print missing_message], Inr ())
    \<and> (\<forall>req. HttpGet req \<notin> set (fst (main cfg api smtp as_string now today)))
    \<and> (\<forall>c. Smtp c \<notin> set (fst (main cfg api smtp as_string now today)))"
  using assms by (auto simp add: main_def truthy_def)

theorem main_missing_config_witness:
  "EMAIL_PASS (cfg_example\<lparr>EMAIL_PASS := None\<rparr>) = None
   \<and> main (cfg_example\<lparr>EMAIL_PASS := None\<rparr>) api_exact smtp_accepts as_string_writes
         now_example now_example =
       ([Print missing_message], Inr ())"
  using main_missing_config
    [of "cfg_example\<lparr>EMAIL_PASS := None\<rparr>" api_exact smtp_accepts as_string_writes
      now_example now_example]
  by simp

text \<open>
  C10. A required configuration value that is present but empty is treated like an absent
  one: \<^verbatim>\<open>main\<close> prints the diagnostic and returns normally without any HTTP request or
  mail command, exactly as the run with the value absent does.
\<close>

theorem main_empty_value:
  assumes "CSE_API_KEY cfg = Some [] \<or> CSE_CX cfg = Some [] \<or> EMAIL_USER cfg = Some []
    \<or> EMAIL_PASS cfg = Some [] \<or> RECIPIENT_EMAIL cfg = Some []"
  shows "main cfg api smtp as_string now today = ([Print missing_message], Inr ())
    \<and> main cfg api smtp as_string now today =
        main (cfg\<lparr>CSE_API_KEY := None\<rparr>) api smtp as_string now today"
  using assms by (auto simp add: main_def truthy_def)

theorem main_empty_value_witness:
  "CSE_CX (cfg_example\<lparr>CSE_CX := Some ''''\<rparr>) = Some ''''
   \<and> main (cfg_example\<lparr>CSE_CX := Some ''''\<rparr>) api_exact smtp_accepts as_string_writes
         now_example now_example =
       ([Print missing_message], Inr ())"
  using main_empty_value
    [of "cfg_example\<lparr>CSE_CX := Some ''''\<rparr>" api_exact smtp_accepts as_string_writes
      now_example now_example]
  by simp

end
